theory Spec2Isabelle
  imports Complex_Main "HOL-Library.AList"
begin

section \<open>Python values, exceptions and printf-style formatting\<close>

text \<open>
  The tracing module \<^verbatim>\<open>inspect_ai/_util/trace.py\<close> has three parts: the context manager
  \<^verbatim>\<open>trace_action\<close>, the log formatter \<^verbatim>\<open>TraceFormatter\<close> and the reader
  \<^verbatim>\<open>read_trace_file\<close> with its pydantic record classes. They are embedded below in
  that order, after the Python values they handle.

  A dictionary key is a string or some other hashable object (a tuple, say), kept with
  the name of its class. Keys that are int, float, bool or None are not part of the
  model. A value is one of the JSON-representable Python values or an opaque object,
  which is identified with the text \<^verbatim>\<open>str()\<close> returns for it. Floats are real
  numbers: rounding, NaN and the infinities are not modelled.
\<close>

datatype pykey = KStr string | KObj string

datatype pyval =
    PNone
  | PBool bool
  | PInt int
  | PFloat real
  | PStr string
  | PList "pyval list"
  | PDict "(pykey \<times> pyval) list"
  | PObj string

text \<open>
  An exception is known by the first \<^verbatim>\<open>except\<close> clause of \<^verbatim>\<open>trace_action\<close> whose
  class it is an instance of: \<open>KeyboardInterrupt\<close>, \<open>CancelledError\<close>
  (\<^verbatim>\<open>asyncio.CancelledError\<close>), \<open>Exception\<close>, or none of them (\<open>BaseException\<close>:
  \<^verbatim>\<open>SystemExit\<close>, \<^verbatim>\<open>GeneratorExit\<close> and classes derived from \<^verbatim>\<open>BaseException\<close>
  directly), by \<^verbatim>\<open>type(ex).__name__\<close> and by \<^verbatim>\<open>str(ex)\<close>.
\<close>

datatype exc_class = KeyboardInterrupt | CancelledError | Exception | BaseException

record exc =
  exc_class :: exc_class
  exc_type_name :: string
  exc_str :: string

datatype outcome = Returned | Raised exc

text \<open>
  The right operand of Python's \<^verbatim>\<open>%\<close> on strings is a tuple or a mapping. The operator
  itself is a built-in of the language, so the functions of the module take it as the
  parameter \<open>pct\<close>, and everything proved about them holds for whatever it computes.
\<close>

datatype 'a fmt_values = Positional "'a list" | Keyword "(string \<times> 'a) list"

text \<open>
  \<open>str_mod\<close> is the fragment of the operator the concrete scenarios run on: the
  conversion \<^verbatim>\<open>%s\<close>, the escape \<^verbatim>\<open>%%\<close> and the mapping key \<^verbatim>\<open>%(name)s\<close>, with every
  argument represented by its \<^verbatim>\<open>str()\<close> text (all that \<^verbatim>\<open>%s\<close> reads of it). It scans
  the template as CPython does and fails as CPython does. Flags, widths, precisions, other
  conversion types and a bare \<^verbatim>\<open>%s\<close> against a mapping are outside the fragment: there
  the model answers \<open>not_modelled\<close>, which is no statement about Python.
\<close>

datatype mode = Text | Spec | Key nat string | Keyed string

definition TypeError :: "string \<Rightarrow> exc" where
  "TypeError s = \<lparr>exc_class = Exception, exc_type_name = ''TypeError'', exc_str = s\<rparr>"

definition ValueError :: "string \<Rightarrow> exc" where
  "ValueError s = \<lparr>exc_class = Exception, exc_type_name = ''ValueError'', exc_str = s\<rparr>"

definition KeyError :: "string \<Rightarrow> exc" where
  "KeyError k =
     \<lparr>exc_class = Exception, exc_type_name = ''KeyError'', exc_str = CHR 0x27 # k @ [CHR 0x27]\<rparr>"

definition not_modelled :: exc where
  "not_modelled =
     \<lparr>exc_class = Exception, exc_type_name = ''NotModelled'', exc_str = ''outside the fragment''\<rparr>"

fun str_mod_scan :: "mode \<Rightarrow> string fmt_values \<Rightarrow> string \<Rightarrow> string \<Rightarrow> exc + string" where
  "str_mod_scan Text (Positional []) out [] = Inr out"
| "str_mod_scan Text (Positional (a # rest)) out [] =
     Inl (TypeError ''not all arguments converted during string formatting'')"
| "str_mod_scan Text (Keyword d) out [] = Inr out"
| "str_mod_scan Text vs out (c # cs) =
     (if c = CHR ''%'' then str_mod_scan Spec vs out cs
      else str_mod_scan Text vs (out @ [c]) cs)"
| "str_mod_scan Spec vs out [] = Inl (ValueError ''incomplete format'')"
| "str_mod_scan Spec vs out (c # cs) =
     (if c = CHR ''%'' then str_mod_scan Text vs (out @ ''%'') cs
      else if c = CHR ''('' then
        (case vs of
           Positional _ \<Rightarrow> Inl (TypeError ''format requires a mapping'')
         | Keyword _ \<Rightarrow> str_mod_scan (Key 0 []) vs out cs)
      else if c = CHR ''s'' then
        (case vs of
           Positional [] \<Rightarrow> Inl (TypeError ''not enough arguments for format string'')
         | Positional (a # rest) \<Rightarrow> str_mod_scan Text (Positional rest) (out @ a) cs
         | Keyword _ \<Rightarrow> Inl not_modelled)
      else Inl not_modelled)"
| "str_mod_scan (Key depth k) vs out [] = Inl (ValueError ''incomplete format key'')"
| "str_mod_scan (Key depth k) vs out (c # cs) =
     (if c = CHR '')'' then
        (if depth = 0 then
           (case vs of
              Positional _ \<Rightarrow> Inl (TypeError ''format requires a mapping'')
            | Keyword d \<Rightarrow>
                (case map_of d k of
                   None \<Rightarrow> Inl (KeyError k)
                 | Some a \<Rightarrow> str_mod_scan (Keyed a) vs out cs))
         else str_mod_scan (Key (depth - 1) (k @ [c])) vs out cs)
      else if c = CHR ''('' then str_mod_scan (Key (depth + 1) (k @ [c])) vs out cs
      else str_mod_scan (Key depth (k @ [c])) vs out cs)"
| "str_mod_scan (Keyed a) vs out [] = Inl (ValueError ''incomplete format'')"
| "str_mod_scan (Keyed a) vs out (c # cs) =
     (if c = CHR ''s'' then str_mod_scan Text vs (out @ a) cs else Inl not_modelled)"

definition str_mod :: "string \<Rightarrow> string fmt_values \<Rightarrow> exc + string" where
  "str_mod template vs = str_mod_scan Text vs [] template"

section \<open>The action scope: \<^verbatim>\<open>trace_action\<close>\<close>

text \<open>
  A call \<^verbatim>\<open>logger.log(level, msg, extra=...)\<close>. \<^verbatim>\<open>trace_action\<close> passes no message
  arguments, so the record's \<^verbatim>\<open>getMessage()\<close> is \<open>log_msg\<close> as it stands. The logger is
  the injected sink: it takes every call and returns.
\<close>

record LogCall =
  log_level :: int
  log_msg :: string
  log_extra :: "(string \<times> pyval) list"

text \<open>
  What the scope reads on entry: the results of \<^verbatim>\<open>uuid()\<close>, \<^verbatim>\<open>time.monotonic()\<close> and
  \<^verbatim>\<open>time.time()\<close> (lines 28 to 30).
\<close>

record entry =
  uuid :: string
  time_monotonic :: real
  time_time :: real

text \<open>
  The wrapped block of the \<^verbatim>\<open>with\<close> statement, as the scope sees it: the calls it made
  to the logger itself (nested scopes, say), what \<^verbatim>\<open>time.monotonic()\<close> returns when
  control is back in the generator, how the block ended, and the text
  \<^verbatim>\<open>traceback.format_exc()\<close> gives for its exception.
\<close>

record work =
  work_logs :: "LogCall list"
  work_monotonic :: real
  work_outcome :: outcome
  work_format_exc :: string

definition formatted_message ::
  "(string \<Rightarrow> 'a fmt_values \<Rightarrow> exc + string) \<Rightarrow> string \<Rightarrow> 'a list \<Rightarrow> (string \<times> 'a) list
     \<Rightarrow> exc + string" where
  "formatted_message pct template posargs kwargs =
     (if posargs \<noteq> [] then pct template (Positional posargs)
      else if kwargs \<noteq> [] then pct template (Keyword kwargs)
      else Inr template)"

definition trace_message :: "string \<Rightarrow> string \<Rightarrow> string \<Rightarrow> string" where
  "trace_message act fm ev = ''Action: '' @ act @ '' - '' @ fm @ '' ('' @ ev @ '')''"

text \<open>
  The result is the sequence of logger calls of the whole activation, the block's own
  among them, and how the \<^verbatim>\<open>with\<close> statement ends. \<open>TRACE\<close> is the level constant of
  \<^verbatim>\<open>constants.py\<close>. A failure of the rendering is raised before the first call and
  before the block runs; an exception that neither handler matches leaves the generator
  with no further call.
\<close>

definition trace_action ::
  "int \<Rightarrow> (string \<Rightarrow> 'a fmt_values \<Rightarrow> exc + string) \<Rightarrow> entry \<Rightarrow> string \<Rightarrow> string \<Rightarrow> 'a list
     \<Rightarrow> (string \<times> 'a) list \<Rightarrow> work \<Rightarrow> LogCall list \<times> outcome" where
  "trace_action TRACE pct en act template posargs kwargs w =
     (let tid = uuid en;
          start_monotonic = time_monotonic en;
          start_wall = time_time en
      in case formatted_message pct template posargs kwargs of
           Inl ex \<Rightarrow> ([], Raised ex)
         | Inr fm \<Rightarrow>
            (let enter_call =
                   \<lparr>log_level = TRACE, log_msg = trace_message act fm ''enter'',
                    log_extra = [(''action'', PStr act), (''event'', PStr ''enter''),
                                 (''trace_id'', PStr tid), (''start_time'', PFloat start_wall)]\<rparr>;
                 dur = work_monotonic w - start_monotonic
             in case work_outcome w of
                  Returned \<Rightarrow>
                    (enter_call # work_logs w @
                       [\<lparr>log_level = TRACE, log_msg = trace_message act fm ''exit'',
                         log_extra = [(''action'', PStr act), (''event'', PStr ''exit''),
                                      (''trace_id'', PStr tid), (''duration'', PFloat dur)]\<rparr>],
                     Returned)
                | Raised ex \<Rightarrow>
                    if exc_class ex = KeyboardInterrupt \<or> exc_class ex = CancelledError then
                      (enter_call # work_logs w @
                         [\<lparr>log_level = TRACE, log_msg = trace_message act fm ''cancel'',
                           log_extra = [(''action'', PStr act), (''event'', PStr ''cancel''),
                                        (''trace_id'', PStr tid), (''duration'', PFloat dur)]\<rparr>],
                       Raised ex)
                    else if exc_class ex = Exception then
                      (enter_call # work_logs w @
                         [\<lparr>log_level = TRACE, log_msg = trace_message act fm ''error'',
                           log_extra = [(''action'', PStr act), (''event'', PStr ''error''),
                                        (''trace_id'', PStr tid), (''duration'', PFloat dur),
                                        (''error'', PStr (exc_str ex)),
                                        (''error_type'', PStr (exc_type_name ex)),
                                        (''stacktrace'', PStr (work_format_exc w))]\<rparr>],
                       Raised ex)
                    else (enter_call # work_logs w, Raised ex)))"

section \<open>The structured formatter: \<^verbatim>\<open>TraceFormatter\<close>\<close>

text \<open>
  A \<^verbatim>\<open>logging.LogRecord\<close>, as far as \<^verbatim>\<open>TraceFormatter.format\<close> reads it. \<open>attrs\<close> is the
  part of \<^verbatim>\<open>record.__dict__\<close> beyond the standard attributes, in insertion order: the
  \<^verbatim>\<open>extra\<close> of the logging call and whatever else was set on the record (\<^verbatim>\<open>message\<close>
  and \<^verbatim>\<open>asctime\<close> by another formatter, \<^verbatim>\<open>taskName\<close> from Python 3.12 on). The standard
  attributes that are not fields here (\<^verbatim>\<open>name\<close>, \<^verbatim>\<open>levelno\<close>, \<^verbatim>\<open>pathname\<close> and so on)
  are read by the last loop of \<^verbatim>\<open>format\<close> only, and each of them is on its exclusion
  list, as are the seven that are fields. \<^verbatim>\<open>hasattr\<close> and \<^verbatim>\<open>getattr\<close> below are for
  names that are not standard attributes; for those that are, \<^verbatim>\<open>hasattr\<close> holds of every
  \<^verbatim>\<open>LogRecord\<close>.
\<close>

record 'a LogRecord =
  created :: real
  levelname :: string
  msg :: string
  args :: "'a fmt_values"
  module :: pyval
  funcName :: pyval
  lineno :: pyval
  attrs :: "(string \<times> pyval) list"

definition hasattr :: "'a LogRecord \<Rightarrow> string \<Rightarrow> bool" where
  "hasattr r key = (key \<in> fst ` set (attrs r))"

definition getattr :: "'a LogRecord \<Rightarrow> string \<Rightarrow> pyval option" where
  "getattr r key = map_of (attrs r) key"

text \<open>
  \<^verbatim>\<open>LogRecord.getMessage\<close>: the message is formatted only when there are arguments.
\<close>

definition getMessage ::
  "(string \<Rightarrow> 'a fmt_values \<Rightarrow> exc + string) \<Rightarrow> 'a LogRecord \<Rightarrow> exc + string" where
  "getMessage pct r =
     (case args r of
        Positional [] \<Rightarrow> Inr (msg r)
      | Keyword [] \<Rightarrow> Inr (msg r)
      | vs \<Rightarrow> pct (msg r) vs)"

definition action_keys :: "string list" where
  "action_keys =
     [''action'', ''event'', ''trace_id'', ''start_time'', ''duration'', ''error'', ''error_type'',
      ''stacktrace'']"

definition excluded :: "string list" where
  "excluded =
     [''args'', ''lineno'', ''funcName'', ''module'', ''asctime'', ''created'', ''exc_info'',
      ''exc_text'', ''filename'', ''levelno'', ''levelname'', ''msecs'', ''msg'', ''name'',
      ''pathname'', ''process'', ''processName'', ''relativeCreated'', ''stack_info'', ''thread'',
      ''threadName'']"

text \<open>
  The dictionary \<^verbatim>\<open>output\<close> is an association list in insertion order;
  \<^verbatim>\<open>output[key] = value\<close> is \<open>AList.update\<close>, which replaces the value of a key that is
  there and appends a new key at the end. The two loops of \<^verbatim>\<open>format\<close> are folds of their
  bodies.
\<close>

definition copy_action_key ::
  "'a LogRecord \<Rightarrow> string \<Rightarrow> (string \<times> pyval) list \<Rightarrow> (string \<times> pyval) list" where
  "copy_action_key r key output =
     (case getattr r key of Some v \<Rightarrow> AList.update key v output | None \<Rightarrow> output)"

definition copy_extra :: "string \<times> pyval \<Rightarrow> (string \<times> pyval) list \<Rightarrow> (string \<times> pyval) list" where
  "copy_extra item output =
     (if fst item \<notin> fst ` set output \<and> fst item \<notin> set excluded
      then AList.update (fst item) (snd item) output
      else output)"

text \<open>
  The dictionary at line 159, before it is serialized. \<open>isoformat\<close> is
  \<^verbatim>\<open>datetime.fromtimestamp(t).isoformat()\<close> of \<^verbatim>\<open>formatTime\<close>.
\<close>

definition format_output ::
  "(real \<Rightarrow> string) \<Rightarrow> (string \<Rightarrow> 'a fmt_values \<Rightarrow> exc + string) \<Rightarrow> 'a LogRecord
     \<Rightarrow> exc + (string \<times> pyval) list" where
  "format_output isoformat pct r =
     (case getMessage pct r of
        Inl ex \<Rightarrow> Inl ex
      | Inr m \<Rightarrow>
         (let output = [(''timestamp'', PStr (isoformat (created r))), (''level'', PStr (levelname r)),
                        (''message'', PStr m)];
              output =
                (if levelname r \<noteq> ''TRACE'' then
                   AList.update ''line'' (lineno r)
                     (AList.update ''function'' (funcName r)
                        (AList.update ''module'' (module r) output))
                 else if hasattr r ''action'' then fold (copy_action_key r) action_keys output
                 else output)
          in Inr (fold copy_extra (attrs r) output)))"

text \<open>
  \<^verbatim>\<open>json.dumps(output, default=str)\<close>, up to the text of the line: the result is the JSON
  value the line denotes. An object that the encoder does not know goes through
  \<^verbatim>\<open>default\<close> and becomes the string \<^verbatim>\<open>str()\<close> gives; \<^verbatim>\<open>default\<close> is not asked about
  dictionary keys, and a key that is not a string or a number makes the encoder raise.
\<close>

datatype json =
    JNull
  | JBool bool
  | JInt int
  | JFloat real
  | JStr string
  | JArr "json list"
  | JObj "(string \<times> json) list"

fun to_json :: "pyval \<Rightarrow> exc + json"
  and to_json_list :: "pyval list \<Rightarrow> exc + json list"
  and to_json_items :: "(pykey \<times> pyval) list \<Rightarrow> exc + (string \<times> json) list" where
  "to_json PNone = Inr JNull"
| "to_json (PBool b) = Inr (JBool b)"
| "to_json (PInt i) = Inr (JInt i)"
| "to_json (PFloat x) = Inr (JFloat x)"
| "to_json (PStr s) = Inr (JStr s)"
| "to_json (PList xs) = (case to_json_list xs of Inl ex \<Rightarrow> Inl ex | Inr js \<Rightarrow> Inr (JArr js))"
| "to_json (PDict items) =
     (case to_json_items items of Inl ex \<Rightarrow> Inl ex | Inr members \<Rightarrow> Inr (JObj members))"
| "to_json (PObj s) = Inr (JStr s)"
| "to_json_list [] = Inr []"
| "to_json_list (x # xs) =
     (case to_json x of
        Inl ex \<Rightarrow> Inl ex
      | Inr j \<Rightarrow> (case to_json_list xs of Inl ex \<Rightarrow> Inl ex | Inr js \<Rightarrow> Inr (j # js)))"
| "to_json_items [] = Inr []"
| "to_json_items ((KObj cls, v) # items) =
     Inl (TypeError (''keys must be str, int, float, bool or None, not '' @ cls))"
| "to_json_items ((KStr k, v) # items) =
     (case to_json v of
        Inl ex \<Rightarrow> Inl ex
      | Inr j \<Rightarrow>
          (case to_json_items items of Inl ex \<Rightarrow> Inl ex | Inr members \<Rightarrow> Inr ((k, j) # members)))"

definition json_dumps :: "(string \<times> pyval) list \<Rightarrow> exc + json" where
  "json_dumps output = to_json (PDict (map (\<lambda>(k, v). (KStr k, v)) output))"

definition format ::
  "(real \<Rightarrow> string) \<Rightarrow> (string \<Rightarrow> 'a fmt_values \<Rightarrow> exc + string) \<Rightarrow> 'a LogRecord \<Rightarrow> exc + json" where
  "format isoformat pct r =
     (case format_output isoformat pct r of Inl ex \<Rightarrow> Inl ex | Inr output \<Rightarrow> json_dumps output)"

section \<open>The record classes and \<^verbatim>\<open>read_trace_file\<close>\<close>

text \<open>
  The pydantic classes. \<^verbatim>\<open>SimpleTraceRecord\<close> adds to \<^verbatim>\<open>TraceRecord\<close> only the field
  \<^verbatim>\<open>action\<close> of type \<^verbatim>\<open>None\<close>, so its instances are those of the base record.
\<close>

record TraceRecord =
  timestamp :: string
  level :: string
  message :: string

record ActionTraceRecord = TraceRecord +
  action :: string
  event :: string
  trace_id :: string
  start_time :: "real option"
  duration :: "real option"
  error :: "string option"
  error_type :: "string option"
  stacktrace :: "string option"

datatype trace_record = Simple TraceRecord | Action ActionTraceRecord

text \<open>
  A line of the file is text that \<^verbatim>\<open>json.loads\<close> rejects, or the JSON value it denotes.
  \<^verbatim>\<open>jsonlines\<close> raises \<^verbatim>\<open>InvalidLineError\<close> with the number of the line and the line;
  pydantic raises \<^verbatim>\<open>ValidationError\<close> with the name of the class and, for every field
  that failed, its name and the input it got (none for a missing field).
\<close>

datatype line = Malformed string | Doc json

datatype read_error =
    InvalidLineError nat line
  | ValidationError string "(string \<times> json option) list"

text \<open>
  \<^verbatim>\<open>Reader.iter(type=dict)\<close> on one line: the line must decode, and to an object. The
  decoded \<^verbatim>\<open>dict\<close> keeps the last value of a name that the text repeats.
\<close>

definition reader_read :: "nat \<Rightarrow> line \<Rightarrow> read_error + (string \<rightharpoonup> json)" where
  "reader_read n l =
     (case l of
        Doc (JObj members) \<Rightarrow> Inr (map_of (rev members))
      | _ \<Rightarrow> Inl (InvalidLineError n l))"

text \<open>
  Validation of one field, by its annotation: \<^verbatim>\<open>str\<close>, \<^verbatim>\<open>str | None\<close> with default
  \<^verbatim>\<open>None\<close>, \<^verbatim>\<open>float | None\<close> with default \<^verbatim>\<open>None\<close>, the \<^verbatim>\<open>Literal\<close> of the four event
  names, and \<^verbatim>\<open>None\<close> with default \<^verbatim>\<open>None\<close>. A float field takes a JSON number; what
  else pydantic's lax mode coerces to a float (numeric strings) is the parameter \<open>lax\<close>.
\<close>

definition str_field :: "string \<Rightarrow> (string \<rightharpoonup> json) \<Rightarrow> (string \<times> json option) list + string" where
  "str_field name d = (case d name of Some (JStr s) \<Rightarrow> Inr s | v \<Rightarrow> Inl [(name, v)])"

definition opt_str_field ::
  "string \<Rightarrow> (string \<rightharpoonup> json) \<Rightarrow> (string \<times> json option) list + string option" where
  "opt_str_field name d =
     (case d name of
        None \<Rightarrow> Inr None
      | Some JNull \<Rightarrow> Inr None
      | Some (JStr s) \<Rightarrow> Inr (Some s)
      | v \<Rightarrow> Inl [(name, v)])"

definition opt_float_field ::
  "(json \<Rightarrow> real option) \<Rightarrow> string \<Rightarrow> (string \<rightharpoonup> json)
     \<Rightarrow> (string \<times> json option) list + real option" where
  "opt_float_field lax name d =
     (case d name of
        None \<Rightarrow> Inr None
      | Some JNull \<Rightarrow> Inr None
      | Some (JFloat x) \<Rightarrow> Inr (Some x)
      | Some (JInt i) \<Rightarrow> Inr (Some (of_int i))
      | Some v \<Rightarrow> (case lax v of Some x \<Rightarrow> Inr (Some x) | None \<Rightarrow> Inl [(name, Some v)]))"

definition event_field :: "string \<Rightarrow> (string \<rightharpoonup> json) \<Rightarrow> (string \<times> json option) list + string" where
  "event_field name d =
     (case d name of
        Some (JStr s) \<Rightarrow>
          if s \<in> set [''enter'', ''cancel'', ''error'', ''exit''] then Inr s
          else Inl [(name, Some (JStr s))]
      | v \<Rightarrow> Inl [(name, v)])"

definition none_field :: "string \<Rightarrow> (string \<rightharpoonup> json) \<Rightarrow> (string \<times> json option) list + unit" where
  "none_field name d =
     (case d name of None \<Rightarrow> Inr () | Some JNull \<Rightarrow> Inr () | v \<Rightarrow> Inl [(name, v)])"

text \<open>pydantic validates every field and reports all that failed, in field order.\<close>

fun both :: "'e list + 'a \<Rightarrow> 'e list + 'b \<Rightarrow> 'e list + 'a \<times> 'b" where
  "both (Inr a) (Inr b) = Inr (a, b)"
| "both (Inl e) (Inr b) = Inl e"
| "both (Inr a) (Inl e) = Inl e"
| "both (Inl e) (Inl e') = Inl (e @ e')"

definition SimpleTraceRecord_init :: "(string \<rightharpoonup> json) \<Rightarrow> read_error + TraceRecord" where
  "SimpleTraceRecord_init d =
     (case both (str_field ''timestamp'' d) (both (str_field ''level'' d)
             (both (str_field ''message'' d) (none_field ''action'' d))) of
        Inl errors \<Rightarrow> Inl (ValidationError ''SimpleTraceRecord'' errors)
      | Inr (ts, lv, m, _) \<Rightarrow> Inr \<lparr>timestamp = ts, level = lv, message = m\<rparr>)"

definition ActionTraceRecord_init ::
  "(json \<Rightarrow> real option) \<Rightarrow> (string \<rightharpoonup> json) \<Rightarrow> read_error + ActionTraceRecord" where
  "ActionTraceRecord_init lax d =
     (case both (str_field ''timestamp'' d) (both (str_field ''level'' d)
             (both (str_field ''message'' d) (both (str_field ''action'' d)
             (both (event_field ''event'' d) (both (str_field ''trace_id'' d)
             (both (opt_float_field lax ''start_time'' d) (both (opt_float_field lax ''duration'' d)
             (both (opt_str_field ''error'' d) (both (opt_str_field ''error_type'' d)
             (opt_str_field ''stacktrace'' d)))))))))) of
        Inl errors \<Rightarrow> Inl (ValidationError ''ActionTraceRecord'' errors)
      | Inr (ts, lv, m, a, ev, tid, st, du, er, et, sk) \<Rightarrow>
          Inr \<lparr>timestamp = ts, level = lv, message = m, action = a, event = ev, trace_id = tid,
               start_time = st, duration = du, error = er, error_type = et, stacktrace = sk\<rparr>)"

text \<open>
  One turn of the loop of \<^verbatim>\<open>read_trace_file\<close>: the reader decodes line \<open>n\<close>, and the
  presence of the key \<^verbatim>\<open>action\<close> chooses the class that validates the decoded mapping.
\<close>

definition line_record :: "(json \<Rightarrow> real option) \<Rightarrow> nat \<Rightarrow> line \<Rightarrow> read_error + trace_record" where
  "line_record lax n l =
     (case reader_read n l of
        Inl e \<Rightarrow> Inl e
      | Inr trace \<Rightarrow>
          if trace ''action'' \<noteq> None then
            (case ActionTraceRecord_init lax trace of Inl e \<Rightarrow> Inl e | Inr r \<Rightarrow> Inr (Action r))
          else
            (case SimpleTraceRecord_init trace of Inl e \<Rightarrow> Inl e | Inr r \<Rightarrow> Inr (Simple r)))"

text \<open>
  The loop over the lines of the file, with the number of the line the reader is at and
  the list built so far. An exception ends the loop and the call; the list is returned
  only after the last line.
\<close>

fun read_lines ::
  "(json \<Rightarrow> real option) \<Rightarrow> nat \<Rightarrow> line list \<Rightarrow> trace_record list \<Rightarrow> read_error + trace_record list" where
  "read_lines lax n [] trace_records = Inr trace_records"
| "read_lines lax n (l # ls) trace_records =
     (case line_record lax n l of
        Inl e \<Rightarrow> Inl e
      | Inr r \<Rightarrow> read_lines lax (Suc n) ls (trace_records @ [r]))"

definition read_trace_file :: "(json \<Rightarrow> real option) \<Rightarrow> line list \<Rightarrow> read_error + trace_record list" where
  "read_trace_file lax file = read_lines lax 1 file []"

section \<open>Reference notions for the properties\<close>







text \<open>
  What a \<^verbatim>\<open>ValidationError\<close> tells of the line it comes from: it names at least one
  field, and for every field it names it gives the input found under that name in the
  decoded mapping (none when the field is missing).
\<close>

definition names_inputs :: "(string \<rightharpoonup> json) \<Rightarrow> (string \<times> json option) list \<Rightarrow> bool" where
  "names_inputs d errors = (errors \<noteq> [] \<and> (\<forall>p \<in> set errors. snd p = d (fst p)))"

section \<open>Auxiliary facts about the dictionaries and the encoder\<close>


lemma to_json_items_rel:
  "to_json_items (map (\<lambda>(k, v). (KStr k, v)) out) = Inr members \<Longrightarrow>
   list_all2 (\<lambda>kv kj. fst kj = fst kv \<and> to_json (snd kv) = Inr (snd kj)) out members"
  by (induction out arbitrary: members) (auto split: sum.splits)

lemma rel_keys:
  "list_all2 (\<lambda>kv kj. fst kj = fst kv \<and> to_json (snd kv) = Inr (snd kj)) out members \<Longrightarrow>
   map fst members = map fst out"
  by (induction rule: list_all2_induct) auto

lemma rel_map_of:
  "list_all2 (\<lambda>kv kj. fst kj = fst kv \<and> to_json (snd kv) = Inr (snd kj)) out members \<Longrightarrow>
   map_of out k = Some v \<Longrightarrow> \<exists>j. to_json v = Inr j \<and> map_of members k = Some j"
  by (induction rule: list_all2_induct) (auto split: if_splits)



lemma in_keys_iff: "k \<in> fst ` set al \<longleftrightarrow> map_of al k \<noteq> None"
  by (simp add: map_of_eq_None_iff)

lemma map_of_copy_extra:
  "map_of (copy_extra item out) k =
     (case map_of out k of
        Some v \<Rightarrow> Some v
      | None \<Rightarrow> if k = fst item \<and> k \<notin> set excluded then Some (snd item) else None)"
  by (auto simp add: copy_extra_def update_conv' in_keys_iff split: option.splits)

lemma map_of_fold_copy_extra:
  "map_of (fold copy_extra xs out) k =
     (case map_of out k of
        Some v \<Rightarrow> Some v
      | None \<Rightarrow> if k \<in> set excluded then None else map_of xs k)"
proof (induction xs arbitrary: out)
  case Nil
  then show ?case by (simp split: option.splits)
next
  case (Cons x xs)
  show ?case
    by (cases x) (simp add: Cons.IH map_of_copy_extra split: option.splits)
qed

lemma map_of_copy_action_key:
  "map_of (copy_action_key r key out) k =
     (if k = key then (case getattr r k of Some v \<Rightarrow> Some v | None \<Rightarrow> map_of out k)
      else map_of out k)"
  by (simp add: copy_action_key_def update_conv' split: option.splits)

lemma map_of_fold_copy_action_key:
  "map_of (fold (copy_action_key r) ks out) k =
     (if k \<in> set ks then (case getattr r k of Some v \<Rightarrow> Some v | None \<Rightarrow> map_of out k)
      else map_of out k)"
  by (induction ks arbitrary: out) (auto simp add: map_of_copy_action_key split: option.splits)

lemma keys_copy_action_key:
  "key \<notin> fst ` set out \<Longrightarrow>
   map fst (copy_action_key r key out) = map fst out @ (if hasattr r key then [key] else [])"
  by (auto simp add: copy_action_key_def hasattr_def getattr_def update_keys in_keys_iff
      split: option.splits)

lemma keys_fold_copy_action_key:
  "distinct ks \<Longrightarrow> set ks \<inter> fst ` set out = {} \<Longrightarrow>
   map fst (fold (copy_action_key r) ks out) = map fst out @ filter (hasattr r) ks"
proof (induction ks arbitrary: out)
  case Nil
  then show ?case by simp
next
  case (Cons key ks)
  from Cons.prems have k: "key \<notin> fst ` set out" by auto
  have s: "fst ` set (copy_action_key r key out) \<subseteq> insert key (fst ` set out)"
    by (auto simp add: copy_action_key_def dom_update split: option.splits)
  with Cons.prems have "set ks \<inter> fst ` set (copy_action_key r key out) = {}" by auto
  with Cons.prems Cons.IH [of "copy_action_key r key out"]
  have "map fst (fold (copy_action_key r) ks (copy_action_key r key out)) =
      map fst (copy_action_key r key out) @ filter (hasattr r) ks" by simp
  with keys_copy_action_key [OF k, of r] show ?case by simp
qed

lemma keys_fold_copy_extra:
  "\<exists>rest. map fst (fold copy_extra xs out) = map fst out @ rest \<and>
      set rest = {k \<in> fst ` set xs. k \<notin> set excluded \<and> k \<notin> fst ` set out}"
proof (induction xs arbitrary: out)
  case Nil
  then show ?case by simp
next
  case (Cons x xs)
  from Cons.IH [of "copy_extra x out"] obtain rest where
    r: "map fst (fold copy_extra xs (copy_extra x out)) = map fst (copy_extra x out) @ rest"
    and s: "set rest = {k \<in> fst ` set xs. k \<notin> set excluded \<and> k \<notin> fst ` set (copy_extra x out)}"
    by blast
  show ?case
  proof (cases "fst x \<notin> fst ` set out \<and> fst x \<notin> set excluded")
    case True
    then have c: "map fst (copy_extra x out) = map fst out @ [fst x]"
      by (auto simp add: copy_extra_def update_keys)
    then have d: "fst ` set (copy_extra x out) = insert (fst x) (fst ` set out)"
      by (metis Un_insert_right append_Nil2 list.simps(15) set_append set_map)
    show ?thesis
      apply (rule exI [of _ "fst x # rest"])
      using r s c d True by auto
  next
    case False
    then have c: "copy_extra x out = out" by (auto simp add: copy_extra_def)
    show ?thesis
      apply (rule exI [of _ rest])
      using r s c False by auto
  qed
qed



lemma format_Inr_D:
  assumes "format isoformat pct r = Inr j"
  obtains m out members where "getMessage pct r = Inr m"
    and "format_output isoformat pct r = Inr out"
    and "to_json_items (map (\<lambda>(k, v). (KStr k, v)) out) = Inr members"
    and "j = JObj members"
  using assms by (auto simp add: format_def format_output_def json_dumps_def split: sum.splits)



lemma format_output_action_key:
  assumes "format_output isoformat pct r = Inr out" and "k \<in> set action_keys"
  shows "map_of out k = getattr r k"
proof -
  from assms(2) have ne: "k \<notin> set excluded" "k \<noteq> ''timestamp''" "k \<noteq> ''level''" "k \<noteq> ''message''"
    "k \<noteq> ''module''" "k \<noteq> ''function''" "k \<noteq> ''line''"
    by (auto simp add: action_keys_def excluded_def)
  from assms(1) obtain m where m: "getMessage pct r = Inr m"
    by (auto simp add: format_output_def split: sum.splits)
  show ?thesis
    using assms m ne
    by (auto simp add: format_output_def Let_def map_of_fold_copy_extra map_of_fold_copy_action_key
        update_conv' getattr_def hasattr_def split: if_splits option.splits)
qed











section \<open>Auxiliary facts about the reader\<close>

lemma both_Inr [simp]: "both x y = Inr p \<longleftrightarrow> x = Inr (fst p) \<and> y = Inr (snd p)"
  by (cases x; cases y) auto

lemma read_lines_Inr:
  "read_lines lax n ls acc = Inr rs \<longleftrightarrow>
     (\<exists>rs'. rs = acc @ rs' \<and> length rs' = length ls \<and>
        (\<forall>i < length ls. line_record lax (n + i) (ls ! i) = Inr (rs' ! i)))"
proof (induction ls arbitrary: n acc rs)
  case Nil
  then show ?case by auto
next
  case (Cons l ls)
  show ?case
  proof (cases "line_record lax n l")
    case (Inl e)
    have "\<not> (\<forall>i < length (l # ls). line_record lax (n + i) ((l # ls) ! i) = Inr (rs' ! i))" for rs'
    proof
      assume "\<forall>i < length (l # ls). line_record lax (n + i) ((l # ls) ! i) = Inr (rs' ! i)"
      from this [rule_format, of 0] Inl show False by simp
    qed
    with Inl show ?thesis by simp
  next
    case (Inr r)
    show ?thesis
    proof
      assume "read_lines lax n (l # ls) acc = Inr rs"
      with Inr Cons.IH [of "Suc n" "acc @ [r]" rs] obtain rs' where
        rs: "rs = (acc @ [r]) @ rs'" and len: "length rs' = length ls"
        and each: "\<forall>i < length ls. line_record lax (Suc n + i) (ls ! i) = Inr (rs' ! i)"
        by auto
      have "\<forall>i < length (l # ls). line_record lax (n + i) ((l # ls) ! i) = Inr ((r # rs') ! i)"
      proof (intro allI impI)
        fix i assume "i < length (l # ls)"
        then show "line_record lax (n + i) ((l # ls) ! i) = Inr ((r # rs') ! i)"
          using Inr each by (cases i) auto
      qed
      with rs len show "\<exists>rs'. rs = acc @ rs' \<and> length rs' = length (l # ls) \<and>
        (\<forall>i < length (l # ls). line_record lax (n + i) ((l # ls) ! i) = Inr (rs' ! i))"
        by (intro exI [of _ "r # rs'"]) simp
    next
      assume "\<exists>rs'. rs = acc @ rs' \<and> length rs' = length (l # ls) \<and>
        (\<forall>i < length (l # ls). line_record lax (n + i) ((l # ls) ! i) = Inr (rs' ! i))"
      then obtain rs' where rs: "rs = acc @ rs'" and len: "length rs' = length (l # ls)"
        and each: "\<forall>i < length (l # ls). line_record lax (n + i) ((l # ls) ! i) = Inr (rs' ! i)"
        by blast
      from len obtain r' rs'' where rs': "rs' = r' # rs''" by (cases rs') auto
      from each [rule_format, of 0] Inr rs' have r': "r' = r" by simp
      have "\<forall>i < length ls. line_record lax (Suc n + i) (ls ! i) = Inr (rs'' ! i)"
      proof (intro allI impI)
        fix i assume "i < length ls"
        with each [rule_format, of "Suc i"] rs' show "line_record lax (Suc n + i) (ls ! i) = Inr (rs'' ! i)"
          by simp
      qed
      with rs rs' r' len have "read_lines lax (Suc n) ls (acc @ [r]) = Inr rs"
        by (subst Cons.IH) auto
      with Inr show "read_lines lax n (l # ls) acc = Inr rs" by simp
    qed
  qed
qed

lemma read_lines_Inl:
  "i < length ls \<Longrightarrow> line_record lax (n + i) (ls ! i) = Inl e \<Longrightarrow>
   \<forall>j < i. \<exists>r. line_record lax (n + j) (ls ! j) = Inr r \<Longrightarrow>
   read_lines lax n ls acc = Inl e"
proof (induction ls arbitrary: n acc i)
  case Nil
  then show ?case by simp
next
  case (Cons l ls)
  show ?case
  proof (cases i)
    case 0
    with Cons.prems show ?thesis by simp
  next
    case (Suc i')
    with Cons.prems(3) [rule_format, of 0] obtain r where r: "line_record lax n l = Inr r" by auto
    have "read_lines lax (Suc n) ls (acc @ [r]) = Inl e"
    proof (rule Cons.IH [of i'])
      from Cons.prems Suc show "i' < length ls" by simp
      from Cons.prems Suc show "line_record lax (Suc n + i') (ls ! i') = Inl e" by simp
      show "\<forall>j < i'. \<exists>r. line_record lax (Suc n + j) (ls ! j) = Inr r"
      proof (intro allI impI)
        fix j assume "j < i'"
        with Cons.prems(3) [rule_format, of "Suc j"] Suc
        show "\<exists>r. line_record lax (Suc n + j) (ls ! j) = Inr r" by simp
      qed
    qed
    with r show ?thesis by simp
  qed
qed






lemma str_field_Inr: "str_field k d = Inr s \<Longrightarrow> d k = Some (JStr s)"
  by (auto simp add: str_field_def split: option.splits json.splits)

lemma event_field_Inr:
  "event_field k d = Inr s \<Longrightarrow> d k = Some (JStr s) \<and> s \<in> {''enter'', ''exit'', ''cancel'', ''error''}"
  by (auto simp add: event_field_def split: option.splits json.splits if_splits)

lemma none_field_Inr: "none_field k d = Inr u \<Longrightarrow> d k = None \<or> d k = Some JNull"
  by (auto simp add: none_field_def split: option.splits json.splits)

lemma ActionTraceRecord_init_Inr:
  assumes "ActionTraceRecord_init lax d = Inr a"
  shows "d ''timestamp'' = Some (JStr (timestamp a))" "d ''level'' = Some (JStr (level a))"
    "d ''message'' = Some (JStr (message a))" "d ''action'' = Some (JStr (action a))"
    "d ''event'' = Some (JStr (event a))" "d ''trace_id'' = Some (JStr (trace_id a))"
    "event a \<in> {''enter'', ''exit'', ''cancel'', ''error''}"
proof -
  from assms obtain p where
    b: "both (str_field ''timestamp'' d) (both (str_field ''level'' d)
             (both (str_field ''message'' d) (both (str_field ''action'' d)
             (both (event_field ''event'' d) (both (str_field ''trace_id'' d)
             (both (opt_float_field lax ''start_time'' d) (both (opt_float_field lax ''duration'' d)
             (both (opt_str_field ''error'' d) (both (opt_str_field ''error_type'' d)
             (opt_str_field ''stacktrace'' d)))))))))) = Inr p"
    and a: "a = (case p of (ts, lv, m, ac, ev, tid, st, du, er, et, sk) \<Rightarrow>
          \<lparr>timestamp = ts, level = lv, message = m, action = ac, event = ev, trace_id = tid,
               start_time = st, duration = du, error = er, error_type = et, stacktrace = sk\<rparr>)"
    by (auto simp add: ActionTraceRecord_init_def simp del: both_Inr split: sum.splits)
  obtain ts lv m ac ev tid st du er et sk where p: "p = (ts, lv, m, ac, ev, tid, st, du, er, et, sk)"
    by (metis prod_cases3)
  from b p have f: "str_field ''timestamp'' d = Inr ts" "str_field ''level'' d = Inr lv"
    "str_field ''message'' d = Inr m" "str_field ''action'' d = Inr ac"
    "event_field ''event'' d = Inr ev" "str_field ''trace_id'' d = Inr tid"
    by simp_all
  from a p have s: "timestamp a = ts" "level a = lv" "message a = m" "action a = ac"
    "event a = ev" "trace_id a = tid"
    by simp_all
  from f(1) show "d ''timestamp'' = Some (JStr (timestamp a))" unfolding s by (rule str_field_Inr)
  from f(2) show "d ''level'' = Some (JStr (level a))" unfolding s by (rule str_field_Inr)
  from f(3) show "d ''message'' = Some (JStr (message a))" unfolding s by (rule str_field_Inr)
  from f(4) show "d ''action'' = Some (JStr (action a))" unfolding s by (rule str_field_Inr)
  from event_field_Inr [OF f(5)] show "d ''event'' = Some (JStr (event a))"
    "event a \<in> {''enter'', ''exit'', ''cancel'', ''error''}" unfolding s by simp_all
  from f(6) show "d ''trace_id'' = Some (JStr (trace_id a))" unfolding s by (rule str_field_Inr)
qed

lemma SimpleTraceRecord_init_Inr:
  assumes "SimpleTraceRecord_init d = Inr s"
  shows "d ''timestamp'' = Some (JStr (timestamp s))" "d ''level'' = Some (JStr (level s))"
    "d ''message'' = Some (JStr (message s))"
proof -
  from assms obtain p where
    b: "both (str_field ''timestamp'' d) (both (str_field ''level'' d)
             (both (str_field ''message'' d) (none_field ''action'' d))) = Inr p"
    and a: "s = (case p of (ts, lv, m, u) \<Rightarrow> \<lparr>timestamp = ts, level = lv, message = m\<rparr>)"
    by (auto simp add: SimpleTraceRecord_init_def simp del: both_Inr split: sum.splits)
  obtain ts lv m u where p: "p = (ts, lv, m, u)" by (metis prod_cases3)
  from b p have f: "str_field ''timestamp'' d = Inr ts" "str_field ''level'' d = Inr lv"
    "str_field ''message'' d = Inr m"
    by simp_all
  from a p have s: "timestamp s = ts" "level s = lv" "message s = m" by simp_all
  from f(1) show "d ''timestamp'' = Some (JStr (timestamp s))" unfolding s by (rule str_field_Inr)
  from f(2) show "d ''level'' = Some (JStr (level s))" unfolding s by (rule str_field_Inr)
  from f(3) show "d ''message'' = Some (JStr (message s))" unfolding s by (rule str_field_Inr)
qed

lemma both_Inl:
  "both x y = Inl es \<Longrightarrow> (\<And>e. x = Inl e \<Longrightarrow> names_inputs d e) \<Longrightarrow>
   (\<And>e. y = Inl e \<Longrightarrow> names_inputs d e) \<Longrightarrow> names_inputs d es"
  by (cases x; cases y) (fastforce simp add: names_inputs_def)+

lemma str_field_Inl: "str_field k d = Inl es \<Longrightarrow> names_inputs d es"
  by (auto simp add: str_field_def names_inputs_def split: option.splits json.splits)

lemma opt_str_field_Inl: "opt_str_field k d = Inl es \<Longrightarrow> names_inputs d es"
  by (auto simp add: opt_str_field_def names_inputs_def split: option.splits json.splits)

lemma opt_float_field_Inl: "opt_float_field lax k d = Inl es \<Longrightarrow> names_inputs d es"
  by (auto simp add: opt_float_field_def names_inputs_def split: option.splits json.splits)

lemma event_field_Inl: "event_field k d = Inl es \<Longrightarrow> names_inputs d es"
  by (auto simp add: event_field_def names_inputs_def split: option.splits json.splits if_splits)

lemma none_field_Inl: "none_field k d = Inl es \<Longrightarrow> names_inputs d es"
  by (auto simp add: none_field_def names_inputs_def split: option.splits json.splits)

lemmas field_Inl = str_field_Inl opt_str_field_Inl opt_float_field_Inl event_field_Inl none_field_Inl

lemma ActionTraceRecord_init_Inl:
  assumes "ActionTraceRecord_init lax d = Inl e"
  shows "\<exists>errors. e = ValidationError ''ActionTraceRecord'' errors \<and> names_inputs d errors"
proof -
  from assms obtain es where e: "e = ValidationError ''ActionTraceRecord'' es"
    and b: "both (str_field ''timestamp'' d) (both (str_field ''level'' d)
             (both (str_field ''message'' d) (both (str_field ''action'' d)
             (both (event_field ''event'' d) (both (str_field ''trace_id'' d)
             (both (opt_float_field lax ''start_time'' d) (both (opt_float_field lax ''duration'' d)
             (both (opt_str_field ''error'' d) (both (opt_str_field ''error_type'' d)
             (opt_str_field ''stacktrace'' d)))))))))) = Inl es"
    by (auto simp add: ActionTraceRecord_init_def simp del: both_Inr split: sum.splits)
  from b have "names_inputs d es"
    by (elim both_Inl field_Inl)
  with e show ?thesis by blast
qed

lemma SimpleTraceRecord_init_Inl:
  assumes "SimpleTraceRecord_init d = Inl e"
  shows "\<exists>errors. e = ValidationError ''SimpleTraceRecord'' errors \<and> names_inputs d errors"
proof -
  from assms obtain es where e: "e = ValidationError ''SimpleTraceRecord'' es"
    and b: "both (str_field ''timestamp'' d) (both (str_field ''level'' d)
             (both (str_field ''message'' d) (none_field ''action'' d))) = Inl es"
    by (auto simp add: SimpleTraceRecord_init_def simp del: both_Inr split: sum.splits)
  from b have "names_inputs d es"
    by (elim both_Inl field_Inl)
  with e show ?thesis by blast
qed

lemma reader_read_cases:
  "(\<exists>members. l = Doc (JObj members) \<and> reader_read n l = Inr (map_of (rev members))) \<or>
   ((\<forall>members. l \<noteq> Doc (JObj members)) \<and> reader_read n l = Inl (InvalidLineError n l))"
  by (auto simp add: reader_read_def split: line.splits json.splits)

lemma line_record_Inr:
  assumes "line_record lax n l = Inr t"
  shows "\<exists>members. l = Doc (JObj members) \<and>
     (case t of
        Action a \<Rightarrow>
          ''action'' \<in> fst ` set members \<and>
          ActionTraceRecord_init lax (map_of (rev members)) = Inr a \<and>
          map_of (rev members) ''timestamp'' = Some (JStr (timestamp a)) \<and>
          map_of (rev members) ''level'' = Some (JStr (level a)) \<and>
          map_of (rev members) ''message'' = Some (JStr (message a)) \<and>
          map_of (rev members) ''action'' = Some (JStr (action a)) \<and>
          map_of (rev members) ''event'' = Some (JStr (event a)) \<and>
          map_of (rev members) ''trace_id'' = Some (JStr (trace_id a)) \<and>
          event a \<in> {''enter'', ''exit'', ''cancel'', ''error''}
      | Simple s \<Rightarrow>
          ''action'' \<notin> fst ` set members \<and>
          SimpleTraceRecord_init (map_of (rev members)) = Inr s \<and>
          map_of (rev members) ''timestamp'' = Some (JStr (timestamp s)) \<and>
          map_of (rev members) ''level'' = Some (JStr (level s)) \<and>
          map_of (rev members) ''message'' = Some (JStr (message s)))"
proof -
  from assms reader_read_cases [of l n] obtain members where l: "l = Doc (JObj members)"
    and rd: "reader_read n l = Inr (map_of (rev members))"
    by (auto simp add: line_record_def)
  define d where "d = map_of (rev members)"
  have key: "d ''action'' \<noteq> None \<longleftrightarrow> ''action'' \<in> fst ` set members"
    by (simp add: d_def map_of_eq_None_iff)
  show ?thesis
  proof (cases "d ''action'' \<noteq> None")
    case True
    with assms rd obtain a where t: "t = Action a" and a: "ActionTraceRecord_init lax d = Inr a"
      by (auto simp add: line_record_def d_def split: sum.splits)
    from True key have "''action'' \<in> fst ` set members" by simp
    with l t a ActionTraceRecord_init_Inr [OF a] show ?thesis
      unfolding d_def by simp
  next
    case False
    with assms rd obtain s where t: "t = Simple s" and s: "SimpleTraceRecord_init d = Inr s"
      by (auto simp add: line_record_def d_def split: sum.splits)
    from False key have "''action'' \<notin> fst ` set members" by simp
    with l t s SimpleTraceRecord_init_Inr [OF s] show ?thesis
      unfolding d_def by simp
  qed
qed

lemma line_record_Inl:
  assumes "line_record lax n l = Inl e"
  shows "(e = InvalidLineError n l \<and> (\<forall>members. l \<noteq> Doc (JObj members))) \<or>
     (\<exists>members cls errors. l = Doc (JObj members) \<and> e = ValidationError cls errors \<and>
        names_inputs (map_of (rev members)) errors)"
proof -
  from reader_read_cases [of l n] show ?thesis
  proof
    assume "\<exists>members. l = Doc (JObj members) \<and> reader_read n l = Inr (map_of (rev members))"
    then obtain members where l: "l = Doc (JObj members)"
      and rd: "reader_read n l = Inr (map_of (rev members))" by blast
    define d where "d = map_of (rev members)"
    from assms rd have "ActionTraceRecord_init lax d = Inl e \<or> SimpleTraceRecord_init d = Inl e"
      by (auto simp add: line_record_def d_def split: sum.splits if_splits)
    then have "\<exists>cls errors. e = ValidationError cls errors \<and> names_inputs d errors"
      using ActionTraceRecord_init_Inl [of lax d e] SimpleTraceRecord_init_Inl [of d e] by blast
    with l show ?thesis unfolding d_def by blast
  next
    assume "(\<forall>members. l \<noteq> Doc (JObj members)) \<and> reader_read n l = Inl (InvalidLineError n l)"
    with assms show ?thesis by (simp add: line_record_def)
  qed
qed
section \<open>Properties of the action scope\<close>

text \<open>
  C8. When rendering the message template fails, the activation makes no logger call at
  all, not even the enter call, and the rendering failure is what the caller gets.
\<close>

theorem render_failure_emits_nothing:
  "formatted_message pct template posargs kwargs = Inl ex \<Longrightarrow>
   trace_action TRACE pct en act template posargs kwargs w = ([], Raised ex)"
  by (simp add: trace_action_def)

theorem render_failure_emits_nothing_witness:
  "formatted_message str_mod ''%s and %s'' [''a''] [] =
     Inl (TypeError ''not enough arguments for format string'') \<and>
   trace_action 13 str_mod \<lparr>uuid = ''u1'', time_monotonic = 5, time_time = 100\<rparr>
     ''build'' ''%s and %s'' [''a''] []
     \<lparr>work_logs = [], work_monotonic = 7, work_outcome = Returned, work_format_exc = []\<rparr>
     = ([], Raised (TypeError ''not enough arguments for format string''))"
proof -
  have h: "formatted_message str_mod ''%s and %s'' [''a''] [] =
     Inl (TypeError ''not enough arguments for format string'')"
    by (simp add: formatted_message_def str_mod_def)
  from render_failure_emits_nothing [OF h] h show ?thesis by simp
qed

text \<open>
  C10. When a call supplies both positional and keyword arguments, the message is rendered
  from the positional ones, and the whole activation is what it would be with no keyword
  arguments at all.
\<close>

theorem positional_takes_precedence:
  "posargs \<noteq> [] \<Longrightarrow> kwargs \<noteq> [] \<Longrightarrow>
   formatted_message pct template posargs kwargs = pct template (Positional posargs) \<and>
   trace_action TRACE pct en act template posargs kwargs w = trace_action TRACE pct en act template posargs [] w"
  by (simp add: trace_action_def formatted_message_def)

theorem positional_takes_precedence_witness:
  "[''mod.x''] \<noteq> [] \<and> [(''name'', ''y'')] \<noteq> [] \<and>
   formatted_message str_mod ''compiling %s'' [''mod.x''] [(''name'', ''y'')] = Inr ''compiling mod.x''"
proof -
  have a: "[''mod.x''] \<noteq> []" and k: "[(''name'', ''y'')] \<noteq> []" by simp_all
  have r: "str_mod ''compiling %s'' (Positional [''mod.x'']) = Inr ''compiling mod.x''"
    by (simp add: str_mod_def)
  from positional_takes_precedence [OF a k, of str_mod "''compiling %s''"] r a k
  show ?thesis by simp
qed

text \<open>
  C7. The template is rendered from the positional arguments when there are some, from the
  keyword arguments when there are only those, and is taken as it stands when there are
  none. The one rendered text \<open>fm\<close> is in the message of every call the scope makes:
  \<^verbatim>\<open>Action: \<close>, the action name, \<^verbatim>\<open> - \<close>, \<open>fm\<close> and the call's own event in
  parentheses. The scenario of the specification is the last conjunct.
\<close>

theorem message_rendered_once_and_annotated:
  "(posargs \<noteq> [] \<longrightarrow> formatted_message pct template posargs kwargs = pct template (Positional posargs)) \<and>
   (posargs = [] \<and> kwargs \<noteq> [] \<longrightarrow> formatted_message pct template posargs kwargs = pct template (Keyword kwargs)) \<and>
   (posargs = [] \<and> kwargs = [] \<longrightarrow> formatted_message pct template posargs kwargs = Inr template) \<and>
   (formatted_message pct template posargs kwargs = Inr fm \<longrightarrow>
      (\<exists>e ts. fst (trace_action TRACE pct en act template posargs kwargs w) = e # work_logs w @ ts \<and>
         (\<forall>c \<in> set (e # ts). \<exists>ev. map_of (log_extra c) ''event'' = Some (PStr ev) \<and>
             log_msg c = ''Action: '' @ act @ '' - '' @ fm @ '' ('' @ ev @ '')''))) \<and>
   map log_msg (fst (trace_action TRACE str_mod en ''build'' ''compiling %s'' [''mod.x''] []
       (w\<lparr>work_logs := [], work_outcome := Returned\<rparr>))) =
     [''Action: build - compiling mod.x (enter)'', ''Action: build - compiling mod.x (exit)'']"
  by (auto simp add: trace_action_def formatted_message_def trace_message_def str_mod_def Let_def
      split: outcome.splits)

theorem message_rendered_once_and_annotated_witness:
  "formatted_message str_mod ''compiling %s'' [''mod.x''] [] = Inr ''compiling mod.x'' \<and>
   formatted_message str_mod ''compiling %(name)s'' [] [(''name'', ''mod.x'')] = Inr ''compiling mod.x'' \<and>
   formatted_message str_mod ''100% done'' [] [] = Inr ''100% done'' \<and>
   map log_msg (fst (trace_action 13 str_mod \<lparr>uuid = ''u1'', time_monotonic = 5, time_time = 100\<rparr>
       ''build'' ''compiling %(name)s'' [] [(''name'', ''mod.x'')]
       \<lparr>work_logs = [], work_monotonic = 7,
        work_outcome = Raised \<lparr>exc_class = CancelledError, exc_type_name = ''CancelledError'', exc_str = []\<rparr>,
        work_format_exc = []\<rparr>)) =
     [''Action: build - compiling mod.x (enter)'', ''Action: build - compiling mod.x (cancel)'']"
proof -
  let ?en = "\<lparr>uuid = ''u1'', time_monotonic = 5, time_time = 100\<rparr>"
  let ?w = "\<lparr>work_logs = [], work_monotonic = 7,
        work_outcome = Raised \<lparr>exc_class = CancelledError, exc_type_name = ''CancelledError'', exc_str = []\<rparr>,
        work_format_exc = []\<rparr>"
  have p: "str_mod ''compiling %s'' (Positional [''mod.x'']) = Inr ''compiling mod.x''"
    and k: "str_mod ''compiling %(name)s'' (Keyword [(''name'', ''mod.x'')]) = Inr ''compiling mod.x''"
    by (simp_all add: str_mod_def)
  note positional = message_rendered_once_and_annotated
      [of "[''mod.x'']" str_mod "''compiling %s''" "[]" "''compiling mod.x''" 13 ?en "''build''" ?w]
  note keyword = message_rendered_once_and_annotated
      [of "[]" str_mod "''compiling %(name)s''" "[(''name'', ''mod.x'')]" "''compiling mod.x''" 13 ?en
        "''build''" ?w]
  note verbatim = message_rendered_once_and_annotated
      [of "[]" str_mod "''100% done''" "[]" "''100% done''" 13 ?en "''build''" ?w]
  have 1: "formatted_message str_mod ''compiling %s'' [''mod.x''] [] = Inr ''compiling mod.x''"
    using positional p by simp
  have 2: "formatted_message str_mod ''compiling %(name)s'' [] [(''name'', ''mod.x'')] =
      Inr ''compiling mod.x''"
    using keyword k by simp
  have 3: "formatted_message str_mod ''100% done'' [] [] = Inr ''100% done''"
    using verbatim by simp
  have "fst (trace_action 13 str_mod ?en ''build'' ''compiling %(name)s'' [] [(''name'', ''mod.x'')] ?w) =
     [\<lparr>log_level = 13, log_msg = ''Action: build - compiling mod.x (enter)'',
      log_extra = [(''action'', PStr ''build''), (''event'', PStr ''enter''),
                   (''trace_id'', PStr ''u1''), (''start_time'', PFloat 100)]\<rparr>,
     \<lparr>log_level = 13, log_msg = ''Action: build - compiling mod.x (cancel)'',
      log_extra = [(''action'', PStr ''build''), (''event'', PStr ''cancel''),
                   (''trace_id'', PStr ''u1''), (''duration'', PFloat 2)]\<rparr>]"
    using 2 by (simp add: trace_action_def trace_message_def Let_def)
  with 1 2 3 show ?thesis by simp
qed

text \<open>
  C9. Every terminal call of the scope carries a \<open>duration\<close> that is the difference of
  the two readings of the monotonic clock, and it is not negative when the clock did not
  run backwards. The enter call carries none. The reading of the wall clock has no part
  in it: with another reading, everything after the enter call is the same. (Times are
  real numbers here; on floats the rounded difference of two ordered readings is not
  negative either.)
\<close>

theorem duration_from_monotonic_clock:
  "time_monotonic en \<le> work_monotonic w \<Longrightarrow> formatted_message pct template posargs kwargs = Inr fm \<Longrightarrow>
   (\<exists>e ts. fst (trace_action TRACE pct en act template posargs kwargs w) = e # work_logs w @ ts \<and>
      map_of (log_extra e) ''duration'' = None \<and>
      (\<forall>t \<in> set ts. \<exists>d. map_of (log_extra t) ''duration'' = Some (PFloat d) \<and> 0 \<le> d \<and>
          d = work_monotonic w - time_monotonic en)) \<and>
   drop 1 (fst (trace_action TRACE pct (en\<lparr>time_time := wall\<rparr>) act template posargs kwargs w)) =
     drop 1 (fst (trace_action TRACE pct en act template posargs kwargs w))"
  by (auto simp add: trace_action_def Let_def split: outcome.splits)

theorem duration_from_monotonic_clock_witness:
  "(5::real) \<le> 7 \<and>
   formatted_message str_mod ''compiling %s'' [''mod.x''] [] = Inr ''compiling mod.x'' \<and>
   map (\<lambda>c. map_of (log_extra c) ''duration'')
     (fst (trace_action 13 str_mod \<lparr>uuid = ''u1'', time_monotonic = 5, time_time = 100\<rparr>
        ''build'' ''compiling %s'' [''mod.x''] []
        \<lparr>work_logs = [], work_monotonic = 7, work_outcome = Returned, work_format_exc = []\<rparr>)) =
     [None, Some (PFloat 2)] \<and>
   drop 1 (fst (trace_action 13 str_mod \<lparr>uuid = ''u1'', time_monotonic = 5, time_time = 3\<rparr>
        ''build'' ''compiling %s'' [''mod.x''] []
        \<lparr>work_logs = [], work_monotonic = 7, work_outcome = Returned, work_format_exc = []\<rparr>)) =
   drop 1 (fst (trace_action 13 str_mod \<lparr>uuid = ''u1'', time_monotonic = 5, time_time = 100\<rparr>
        ''build'' ''compiling %s'' [''mod.x''] []
        \<lparr>work_logs = [], work_monotonic = 7, work_outcome = Returned, work_format_exc = []\<rparr>))"
proof -
  let ?en = "\<lparr>uuid = ''u1'', time_monotonic = 5, time_time = 100\<rparr>"
  let ?w = "\<lparr>work_logs = [], work_monotonic = 7, work_outcome = Returned, work_format_exc = []\<rparr>"
  have m: "time_monotonic ?en \<le> work_monotonic ?w" by simp
  have h: "formatted_message str_mod ''compiling %s'' [''mod.x''] [] = Inr ''compiling mod.x''"
    by (simp add: formatted_message_def str_mod_def)
  from duration_from_monotonic_clock [OF m h, of 13 "''build''" 3]
  have d: "drop 1 (fst (trace_action 13 str_mod (?en\<lparr>time_time := 3\<rparr>)
        ''build'' ''compiling %s'' [''mod.x''] [] ?w)) =
      drop 1 (fst (trace_action 13 str_mod ?en ''build'' ''compiling %s'' [''mod.x''] [] ?w))"
    by blast
  have "map (\<lambda>c. map_of (log_extra c) ''duration'')
     (fst (trace_action 13 str_mod ?en ''build'' ''compiling %s'' [''mod.x''] [] ?w)) =
     [None, Some (PFloat 2)]"
    using h by (simp add: trace_action_def Let_def)
  with d h show ?thesis by simp
qed







section \<open>Properties of the formatter\<close>

text \<open>
  C6. For a record at level \<open>TRACE\<close> that has the attribute \<^verbatim>\<open>action\<close>, the serialized
  object holds the three base fields, then those of the eight action fields that are
  attributes of the record, in their fixed order, then the attributes that are neither
  action fields nor on the exclusion list nor hidden by a base field. So a field of the
  fixed set is a member of the object exactly when the record has it, with the record's
  value; one the record lacks has no member at all, so none with the value null. A record
  with no attribute outside the fixed set and the exclusion list has no further members
  (\<open>rest\<close> is empty).
\<close>

theorem action_record_fields:
  assumes trace: "levelname r = ''TRACE''"
    and act: "hasattr r ''action''"
    and fmt: "format isoformat pct r = Inr j"
  shows "\<exists>members rest. j = JObj members \<and>
     map fst members =
       [''timestamp'', ''level'', ''message''] @ filter (hasattr r) action_keys @ rest \<and>
     set rest = {key. hasattr r key \<and> key \<notin> set excluded \<and> key \<notin> set action_keys \<and>
                   key \<notin> {''timestamp'', ''level'', ''message''}} \<and>
     (\<forall>key \<in> set action_keys.
        (key \<in> fst ` set members \<longleftrightarrow> hasattr r key) \<and>
        (\<not> hasattr r key \<longrightarrow> map_of members key = None) \<and>
        (\<forall>v. getattr r key = Some v \<longrightarrow> (\<exists>jv. to_json v = Inr jv \<and> map_of members key = Some jv)))"
proof -
  from fmt obtain m out members where m: "getMessage pct r = Inr m"
    and out: "format_output isoformat pct r = Inr out"
    and items: "to_json_items (map (\<lambda>(k, v). (KStr k, v)) out) = Inr members"
    and j: "j = JObj members"
    by (rule format_Inr_D)
  define base where "base = [(''timestamp'', PStr (isoformat (created r))),
      (''level'', PStr (levelname r)), (''message'', PStr m)]"
  define mid where "mid = fold (copy_action_key r) action_keys base"
  have base_keys: "map fst base = [''timestamp'', ''level'', ''message'']"
    by (simp add: base_def)
  from out m trace act have out_eq: "out = fold copy_extra (attrs r) mid"
    by (simp add: format_output_def base_def mid_def)
  have dis: "key \<notin> set (map fst base)" if "key \<in> set action_keys" for key
    using that unfolding base_keys by (auto simp add: action_keys_def)
  have "distinct action_keys" by (simp add: action_keys_def)
  moreover from dis have "set action_keys \<inter> fst ` set base = {}" by auto
  ultimately have mid_keys: "map fst mid = map fst base @ filter (hasattr r) action_keys"
    unfolding mid_def by (rule keys_fold_copy_action_key)
  from keys_fold_copy_extra [of "attrs r" mid] obtain rest where
    out_keys: "map fst (fold copy_extra (attrs r) mid) = map fst mid @ rest"
    and rest: "set rest = {k \<in> fst ` set (attrs r). k \<notin> set excluded \<and> k \<notin> fst ` set mid}"
    by blast
  have "fst ` set mid = set (map fst mid)" by simp
  then have mid_set: "fst ` set mid = set (map fst base) \<union> {k \<in> set action_keys. hasattr r k}"
    unfolding mid_keys by auto
  have rest': "set rest = {key. hasattr r key \<and> key \<notin> set excluded \<and> key \<notin> set action_keys \<and>
                   key \<notin> {''timestamp'', ''level'', ''message''}}"
    unfolding rest mid_set base_keys hasattr_def by auto
  from items have rel: "list_all2 (\<lambda>kv kj. fst kj = fst kv \<and> to_json (snd kv) = Inr (snd kj)) out members"
    by (rule to_json_items_rel)
  then have keys: "map fst members = map fst out" by (rule rel_keys)
  have keys': "map fst members =
      [''timestamp'', ''level'', ''message''] @ filter (hasattr r) action_keys @ rest"
    unfolding keys out_eq out_keys mid_keys base_keys by simp
  have per_key: "(key \<in> fst ` set members \<longleftrightarrow> hasattr r key) \<and>
        (\<not> hasattr r key \<longrightarrow> map_of members key = None) \<and>
        (\<forall>v. getattr r key = Some v \<longrightarrow> (\<exists>jv. to_json v = Inr jv \<and> map_of members key = Some jv))"
    if k: "key \<in> set action_keys" for key
  proof -
    from dis [OF k] have nb: "key \<notin> set [''timestamp'', ''level'', ''message'']"
      unfolding base_keys .
    from k rest' have nr: "key \<notin> set rest" by blast
    have "fst ` set members = set (map fst members)" by simp
    also have "\<dots> = set [''timestamp'', ''level'', ''message''] \<union>
        set (filter (hasattr r) action_keys) \<union> set rest"
      unfolding keys' by (simp only: set_append Un_assoc)
    finally have "key \<in> fst ` set members \<longleftrightarrow> key \<in> set (filter (hasattr r) action_keys)"
      using nb nr by blast
    with k have mem: "key \<in> fst ` set members \<longleftrightarrow> hasattr r key" by simp
    then have none: "\<not> hasattr r key \<longrightarrow> map_of members key = None"
      by (simp add: map_of_eq_None_iff)
    have val: "\<exists>jv. to_json v = Inr jv \<and> map_of members key = Some jv"
      if v: "getattr r key = Some v" for v
    proof -
      from format_output_action_key [OF out k] v have "map_of out key = Some v" by simp
      with rel show ?thesis by (rule rel_map_of)
    qed
    from mem none val show ?thesis by blast
  qed
  from j keys' rest' per_key show ?thesis by blast
qed

theorem action_record_fields_witness:
  "levelname \<lparr>created = 100, levelname = ''TRACE'', msg = ''Action: build - compiling mod.x (exit)'',
       args = Positional ([] :: string list), module = PStr ''trace'', funcName = PStr ''trace_action'',
       lineno = PInt 52,
       attrs = [(''action'', PStr ''build''), (''event'', PStr ''exit''),
                (''trace_id'', PStr ''u1''), (''duration'', PFloat 2)]\<rparr> = ''TRACE'' \<and>
   format (\<lambda>t. ''1970-01-01T00:01:40'') str_mod
     \<lparr>created = 100, levelname = ''TRACE'', msg = ''Action: build - compiling mod.x (exit)'',
       args = Positional [], module = PStr ''trace'', funcName = PStr ''trace_action'',
       lineno = PInt 52,
       attrs = [(''action'', PStr ''build''), (''event'', PStr ''exit''),
                (''trace_id'', PStr ''u1''), (''duration'', PFloat 2)]\<rparr> =
     Inr (JObj [(''timestamp'', JStr ''1970-01-01T00:01:40''), (''level'', JStr ''TRACE''),
                (''message'', JStr ''Action: build - compiling mod.x (exit)''),
                (''action'', JStr ''build''), (''event'', JStr ''exit''),
                (''trace_id'', JStr ''u1''), (''duration'', JFloat 2)])"
proof -
  let ?r = "\<lparr>created = 100, levelname = ''TRACE'', msg = ''Action: build - compiling mod.x (exit)'',
       args = Positional ([] :: string list), module = PStr ''trace'', funcName = PStr ''trace_action'',
       lineno = PInt 52,
       attrs = [(''action'', PStr ''build''), (''event'', PStr ''exit''),
                (''trace_id'', PStr ''u1''), (''duration'', PFloat 2)]\<rparr>"
  let ?j = "JObj [(''timestamp'', JStr ''1970-01-01T00:01:40''), (''level'', JStr ''TRACE''),
                (''message'', JStr ''Action: build - compiling mod.x (exit)''),
                (''action'', JStr ''build''), (''event'', JStr ''exit''),
                (''trace_id'', JStr ''u1''), (''duration'', JFloat 2)]"
  have l: "levelname ?r = ''TRACE''" by simp
  have a: "hasattr ?r ''action''" by code_simp
  have f: "format (\<lambda>t. ''1970-01-01T00:01:40'') str_mod ?r = Inr ?j"
    by code_simp
  note fields = action_record_fields [OF l a f]
  from fields l f show ?thesis by (elim exE conjE, intro conjI)
qed




text \<open>
  \<^verbatim>\<open>default=str\<close> is not asked about dictionary keys: an attribute whose value is a
  dictionary keyed by a tuple makes the encoder, and so \<^verbatim>\<open>format\<close>, raise.
\<close>

lemma format_raises_on_tuple_key:
  "format (\<lambda>t. ''1970-01-01T00:01:40'') str_mod
     \<lparr>created = 100, levelname = ''INFO'', msg = ''scores'', args = Positional [],
       module = PStr ''eval'', funcName = PStr ''run'', lineno = PInt 7,
       attrs = [(''scores'', PDict [(KObj ''tuple'', PInt 1)])]\<rparr> =
   Inl (TypeError ''keys must be str, int, float, bool or None, not tuple'')"
  by code_simp

section \<open>Properties of the reader\<close>

text \<open>
  C4. \<^verbatim>\<open>read_trace_file\<close> returns a list exactly when every line yields a record, and
  then the list has one record per line, in the order of the lines. The error of the
  first line that yields none is the result of the whole call, whatever the lines before
  it gave: nothing is returned beside it and no line is passed over. A line yields a
  record only when it decodes to an object; the record is an \<^verbatim>\<open>ActionTraceRecord\<close> when
  the object has the key \<^verbatim>\<open>action\<close> (and then \<^verbatim>\<open>action\<close>, \<^verbatim>\<open>event\<close> and \<^verbatim>\<open>trace_id\<close> are
  strings on the line and the event is one of the four), a \<^verbatim>\<open>SimpleTraceRecord\<close> when it
  has not; the base fields are strings on the line in both cases. The error of a line is
  an \<^verbatim>\<open>InvalidLineError\<close> with the number and the content of the line when the line is
  not an object, and otherwise a \<^verbatim>\<open>ValidationError\<close> that names the failing fields with
  the inputs found on the line.
\<close>

theorem read_is_all_or_nothing:
  "(read_trace_file lax file = Inr rs \<longleftrightarrow>
      length rs = length file \<and>
      (\<forall>i < length file. line_record lax (Suc i) (file ! i) = Inr (rs ! i))) \<and>
   (\<forall>i e. i < length file \<and> line_record lax (Suc i) (file ! i) = Inl e \<and>
        (\<forall>j < i. \<exists>t. line_record lax (Suc j) (file ! j) = Inr t) \<longrightarrow>
      read_trace_file lax file = Inl e) \<and>
   (\<forall>n l t. line_record lax n l = Inr t \<longrightarrow>
      (\<exists>members. l = Doc (JObj members) \<and>
         (case t of
            Action a \<Rightarrow>
              ''action'' \<in> fst ` set members \<and>
              ActionTraceRecord_init lax (map_of (rev members)) = Inr a \<and>
              map_of (rev members) ''timestamp'' = Some (JStr (timestamp a)) \<and>
              map_of (rev members) ''level'' = Some (JStr (level a)) \<and>
              map_of (rev members) ''message'' = Some (JStr (message a)) \<and>
              map_of (rev members) ''action'' = Some (JStr (action a)) \<and>
              map_of (rev members) ''event'' = Some (JStr (event a)) \<and>
              map_of (rev members) ''trace_id'' = Some (JStr (trace_id a)) \<and>
              event a \<in> {''enter'', ''exit'', ''cancel'', ''error''}
          | Simple s \<Rightarrow>
              ''action'' \<notin> fst ` set members \<and>
              SimpleTraceRecord_init (map_of (rev members)) = Inr s \<and>
              map_of (rev members) ''timestamp'' = Some (JStr (timestamp s)) \<and>
              map_of (rev members) ''level'' = Some (JStr (level s)) \<and>
              map_of (rev members) ''message'' = Some (JStr (message s))))) \<and>
   (\<forall>n l e. line_record lax n l = Inl e \<longrightarrow>
      (e = InvalidLineError n l \<and> (\<forall>members. l \<noteq> Doc (JObj members))) \<or>
      (\<exists>members cls errors. l = Doc (JObj members) \<and> e = ValidationError cls errors \<and>
         names_inputs (map_of (rev members)) errors))"
proof (intro conjI allI impI)
  show "read_trace_file lax file = Inr rs \<longleftrightarrow>
      length rs = length file \<and>
      (\<forall>i < length file. line_record lax (Suc i) (file ! i) = Inr (rs ! i))"
    by (simp add: read_trace_file_def read_lines_Inr)
next
  fix i e
  assume a: "i < length file \<and> line_record lax (Suc i) (file ! i) = Inl e \<and>
        (\<forall>j < i. \<exists>t. line_record lax (Suc j) (file ! j) = Inr t)"
  have "read_lines lax 1 file [] = Inl e"
  proof (rule read_lines_Inl [of i])
    from a show "i < length file" by simp
    from a show "line_record lax (1 + i) (file ! i) = Inl e" by simp
    from a show "\<forall>j < i. \<exists>r. line_record lax (1 + j) (file ! j) = Inr r" by simp
  qed
  then show "read_trace_file lax file = Inl e" by (simp add: read_trace_file_def)
next
  fix n l t
  assume "line_record lax n l = Inr t"
  then show "\<exists>members. l = Doc (JObj members) \<and>
         (case t of
            Action a \<Rightarrow>
              ''action'' \<in> fst ` set members \<and>
              ActionTraceRecord_init lax (map_of (rev members)) = Inr a \<and>
              map_of (rev members) ''timestamp'' = Some (JStr (timestamp a)) \<and>
              map_of (rev members) ''level'' = Some (JStr (level a)) \<and>
              map_of (rev members) ''message'' = Some (JStr (message a)) \<and>
              map_of (rev members) ''action'' = Some (JStr (action a)) \<and>
              map_of (rev members) ''event'' = Some (JStr (event a)) \<and>
              map_of (rev members) ''trace_id'' = Some (JStr (trace_id a)) \<and>
              event a \<in> {''enter'', ''exit'', ''cancel'', ''error''}
          | Simple s \<Rightarrow>
              ''action'' \<notin> fst ` set members \<and>
              SimpleTraceRecord_init (map_of (rev members)) = Inr s \<and>
              map_of (rev members) ''timestamp'' = Some (JStr (timestamp s)) \<and>
              map_of (rev members) ''level'' = Some (JStr (level s)) \<and>
              map_of (rev members) ''message'' = Some (JStr (message s)))"
    by (rule line_record_Inr)
next
  fix n l e
  assume "line_record lax n l = Inl e"
  then show "(e = InvalidLineError n l \<and> (\<forall>members. l \<noteq> Doc (JObj members))) \<or>
      (\<exists>members cls errors. l = Doc (JObj members) \<and> e = ValidationError cls errors \<and>
         names_inputs (map_of (rev members)) errors)"
    by (rule line_record_Inl)
qed

theorem read_is_all_or_nothing_witness:
  "read_trace_file (\<lambda>v. None)
     [Doc (JObj [(''timestamp'', JStr ''1970-01-01T00:01:40''), (''level'', JStr ''TRACE''),
                 (''message'', JStr ''Action: build - compiling mod.x (enter)''),
                 (''action'', JStr ''build''), (''event'', JStr ''enter''),
                 (''trace_id'', JStr ''u1''), (''start_time'', JFloat 100)]),
      Doc (JObj [(''timestamp'', JStr ''1970-01-01T00:01:41''), (''level'', JStr ''INFO''),
                 (''message'', JStr ''loaded task'')])] =
     Inr [Action \<lparr>timestamp = ''1970-01-01T00:01:40'', level = ''TRACE'',
                   message = ''Action: build - compiling mod.x (enter)'', action = ''build'',
                   event = ''enter'', trace_id = ''u1'', start_time = Some 100, duration = None,
                   error = None, error_type = None, stacktrace = None\<rparr>,
          Simple \<lparr>timestamp = ''1970-01-01T00:01:41'', level = ''INFO'',
                   message = ''loaded task''\<rparr>] \<and>
   read_trace_file (\<lambda>v. None)
     [Doc (JObj [(''timestamp'', JStr ''1970-01-01T00:01:40''), (''level'', JStr ''TRACE''),
                 (''message'', JStr ''Action: build - compiling mod.x (enter)''),
                 (''action'', JStr ''build''), (''event'', JStr ''enter''),
                 (''trace_id'', JStr ''u1''), (''start_time'', JFloat 100)]),
      Doc (JObj [(''timestamp'', JStr ''1970-01-01T00:01:41''), (''level'', JStr ''TRACE''),
                 (''message'', JStr ''Action: build - compiling mod.x (start)''),
                 (''action'', JStr ''build''), (''event'', JStr ''start''),
                 (''trace_id'', JStr ''u1'')]),
      Doc (JObj [(''timestamp'', JStr ''1970-01-01T00:01:41''), (''level'', JStr ''INFO''),
                 (''message'', JStr ''loaded task'')])] =
     Inl (ValidationError ''ActionTraceRecord'' [(''event'', Some (JStr ''start''))])"
proof -
  let ?lax = "\<lambda>v :: json. None :: real option"
  let ?a = "Doc (JObj [(''timestamp'', JStr ''1970-01-01T00:01:40''), (''level'', JStr ''TRACE''),
                 (''message'', JStr ''Action: build - compiling mod.x (enter)''),
                 (''action'', JStr ''build''), (''event'', JStr ''enter''),
                 (''trace_id'', JStr ''u1''), (''start_time'', JFloat 100)])"
  let ?b = "Doc (JObj [(''timestamp'', JStr ''1970-01-01T00:01:41''), (''level'', JStr ''TRACE''),
                 (''message'', JStr ''Action: build - compiling mod.x (start)''),
                 (''action'', JStr ''build''), (''event'', JStr ''start''),
                 (''trace_id'', JStr ''u1'')])"
  let ?s = "Doc (JObj [(''timestamp'', JStr ''1970-01-01T00:01:41''), (''level'', JStr ''INFO''),
                 (''message'', JStr ''loaded task'')])"
  let ?ra = "Action \<lparr>timestamp = ''1970-01-01T00:01:40'', level = ''TRACE'',
                   message = ''Action: build - compiling mod.x (enter)'', action = ''build'',
                   event = ''enter'', trace_id = ''u1'', start_time = Some 100, duration = None,
                   error = None, error_type = None, stacktrace = None\<rparr>"
  let ?rs = "Simple \<lparr>timestamp = ''1970-01-01T00:01:41'', level = ''INFO'',
                   message = ''loaded task''\<rparr>"
  let ?e = "ValidationError ''ActionTraceRecord'' [(''event'', Some (JStr ''start''))]"
  have a: "line_record ?lax (Suc 0) ?a = Inr ?ra" by code_simp
  have s: "line_record ?lax (Suc (Suc 0)) ?s = Inr ?rs" by code_simp
  have b: "line_record ?lax (Suc (Suc 0)) ?b = Inl ?e" by code_simp
  have each: "\<forall>i < length [?a, ?s]. line_record ?lax (Suc i) ([?a, ?s] ! i) = Inr ([?ra, ?rs] ! i)"
  proof (intro allI impI)
    fix i assume "i < length [?a, ?s]"
    then have "i = 0 \<or> i = Suc 0" by auto
    then show "line_record ?lax (Suc i) ([?a, ?s] ! i) = Inr ([?ra, ?rs] ! i)"
      using a s by auto
  qed
  have good: "read_trace_file ?lax [?a, ?s] = Inr [?ra, ?rs]"
    using read_is_all_or_nothing [THEN conjunct1, of ?lax "[?a, ?s]" "[?ra, ?rs]"] each by simp
  have first: "\<forall>j < Suc 0. \<exists>t. line_record ?lax (Suc j) ([?a, ?b, ?s] ! j) = Inr t"
    using a by simp
  have bad: "read_trace_file ?lax [?a, ?b, ?s] = Inl ?e"
  proof (rule read_is_all_or_nothing [THEN conjunct2, THEN conjunct1, rule_format, of "Suc 0"])
    from b first
    show "Suc 0 < length [?a, ?b, ?s] \<and> line_record ?lax (Suc (Suc 0)) ([?a, ?b, ?s] ! Suc 0) = Inl ?e \<and>
      (\<forall>j < Suc 0. \<exists>t. line_record ?lax (Suc j) ([?a, ?b, ?s] ! j) = Inr t)"
      by simp
  qed
  from good bad show ?thesis by (rule conjI)
qed



end
